theory Spec2Isabelle
  imports Main "HOL-Library.Multiset" "HOL-Library.Sublist"
begin

section \<open>Data model of the team-deduction front end\<close>

text \<open>
  The development embeds the state handlers of \<^verbatim>\<open>frontend/src/App.jsx\<close>. The file holds
  the successive revisions of the component: the earlier ones keep a list \<^verbatim>\<open>seen\<close>
  (handlers \<^verbatim>\<open>markSeen\<close>, \<^verbatim>\<open>unmarkSeen\<close>), the last one keeps a list
  \<^verbatim>\<open>confirmed\<close> and a set \<^verbatim>\<open>discarded\<close> (handlers \<^verbatim>\<open>confirmSet\<close>,
  \<^verbatim>\<open>toggleDiscard\<close>, \<^verbatim>\<open>removeConfirmed\<close>).

  A pool set is the JSON object the catalog serves. Only the fields the handlers read are
  kept: \<^verbatim>\<open>global_id\<close> (a number, the key of every collection of the component),
  \<^verbatim>\<open>species\<close>, \<^verbatim>\<open>item\<close> (a string, or null/undefined: \<open>None\<close>) and
  \<^verbatim>\<open>dex_number\<close> (\<open>Some n\<close> when \<^verbatim>\<open>typeof dex_number === "number"\<close>, \<open>None\<close>
  otherwise). Numbers are the integers of the catalog.
\<close>

record pset =
  global_id :: int
  species :: string
  item :: "string option"
  dex_number :: "int option"

record trainer =
  sets :: "pset list"

text \<open>The state of the last revision (\<^verbatim>\<open>useState\<close> cells of \<^verbatim>\<open>App\<close>).\<close>

record app_state =
  trainer :: "trainer option"
  confirmed :: "int list"
  discarded :: "int set"
  showDiscarded :: bool
  showStatsInPool :: bool
  q :: string

text \<open>\<^verbatim>\<open>const poolSets = trainer?.sets ?? [];\<close>\<close>

definition poolSets :: "'a app_state_scheme \<Rightarrow> pset list" where
  "poolSets st = (case trainer st of None \<Rightarrow> [] | Some t \<Rightarrow> sets t)"

subsection \<open>Trimmed items\<close>

text \<open>
  \<^verbatim>\<open>String.prototype.trim\<close> strips white space and line terminators from both ends.
  Strings are sequences of code units below 256 here; among those the stripped ones are
  TAB, LF, VT, FF, CR, SPACE and NBSP.
\<close>

definition is_ws :: "char \<Rightarrow> bool" where
  "is_ws c = (c \<in> set [CHR 0x09, CHR 0x0A, CHR 0x0B, CHR 0x0C, CHR 0x0D, CHR 0x20, CHR 0xA0])"

definition trim :: "string \<Rightarrow> string" where
  "trim s = rev (dropWhile is_ws (rev (dropWhile is_ws s)))"

text \<open>\<^verbatim>\<open>(s.item ?? "").trim()\<close>\<close>

definition trimmed_item :: "pset \<Rightarrow> string" where
  "trimmed_item s = trim (case item s of None \<Rightarrow> [] | Some i \<Rightarrow> i)"

subsection \<open>Sorted and visible pool\<close>

text \<open>
  The comparator of \<^verbatim>\<open>poolSortedDex\<close>:
  \<^verbatim>\<open>
  const da = typeof a.dex_number === "number" ? a.dex_number : 999999;
  const db = typeof b.dex_number === "number" ? b.dex_number : 999999;
  if (da !== db) return da - db;
  return (a.global_id ?? 0) - (b.global_id ?? 0);
  \<close>
  (\<^verbatim>\<open>global_id\<close> is a number in the data model, so \<^verbatim>\<open>?? 0\<close> passes it through.)
\<close>

definition dex_or_last :: "pset \<Rightarrow> int" where
  "dex_or_last a = (case dex_number a of Some d \<Rightarrow> d | None \<Rightarrow> 999999)"

definition cmp_dex :: "pset \<Rightarrow> pset \<Rightarrow> int" where
  "cmp_dex a b =
     (let da = dex_or_last a; db = dex_or_last b
      in if da \<noteq> db then da - db else global_id a - global_id b)"

text \<open>
  \<^verbatim>\<open>Array.prototype.sort\<close> with a comparator is a stable sort: an element goes before
  another exactly when the comparator is negative, or is zero and it came first. It is
  written as the stable insertion sort here.
\<close>

fun insert_by :: "('a \<Rightarrow> 'a \<Rightarrow> int) \<Rightarrow> 'a \<Rightarrow> 'a list \<Rightarrow> 'a list" where
  "insert_by c x [] = [x]"
| "insert_by c x (y # ys) = (if c x y \<le> 0 then x # y # ys else y # insert_by c x ys)"

fun sort_by :: "('a \<Rightarrow> 'a \<Rightarrow> int) \<Rightarrow> 'a list \<Rightarrow> 'a list" where
  "sort_by c [] = []"
| "sort_by c (x # xs) = insert_by c x (sort_by c xs)"

definition poolSortedDex :: "'a app_state_scheme \<Rightarrow> pset list" where
  "poolSortedDex st = sort_by cmp_dex (poolSets st)"

text \<open>
  \<^verbatim>\<open>
  poolSortedDex.filter((s) => {
    if (confirmedSet.has(s.global_id)) return false;
    const isDisc = discarded.has(s.global_id);
    if (isDisc && !showDiscarded) return false;
    return true;
  })
  \<close>
\<close>

definition visible :: "'a app_state_scheme \<Rightarrow> pset \<Rightarrow> bool" where
  "visible st s =
     (if global_id s \<in> set (confirmed st) then False
      else if global_id s \<in> discarded st \<and> \<not> showDiscarded st then False
      else True)"

definition visiblePool :: "'a app_state_scheme \<Rightarrow> pset list" where
  "visiblePool st = filter (visible st) (poolSortedDex st)"

subsection \<open>Handlers of the last revision\<close>

text \<open>
  \<^verbatim>\<open>
  function toggleDiscard(globalId) {
    setDiscarded((prev) => {
      const next = new Set(prev);
      if (next.has(globalId)) next.delete(globalId);
      else next.add(globalId);
      return next;
    });
  }
  \<close>
\<close>

definition toggleDiscard :: "int \<Rightarrow> 'a app_state_scheme \<Rightarrow> 'a app_state_scheme" where
  "toggleDiscard globalId st =
     st\<lparr>discarded :=
          (if globalId \<in> discarded st then discarded st - {globalId}
           else insert globalId (discarded st))\<rparr>"

text \<open>
  The loop of the \<^verbatim>\<open>setDiscarded\<close> updater of \<^verbatim>\<open>confirmSet\<close>, over \<^verbatim>\<open>poolSets\<close>,
  with the set \<^verbatim>\<open>next\<close> as accumulator: the confirmed set itself is skipped, another
  variant of its species is added, and so is a set with the same non-empty trimmed item.
\<close>

definition item_clash :: "pset \<Rightarrow> pset \<Rightarrow> bool" where
  "item_clash c s =
     (trimmed_item c \<noteq> [] \<and> trimmed_item s \<noteq> [] \<and> trimmed_item s = trimmed_item c)"

fun auto_discard :: "pset \<Rightarrow> pset list \<Rightarrow> int set \<Rightarrow> int set" where
  "auto_discard c [] next = next"
| "auto_discard c (s # rest) next =
     (if global_id s = global_id c then auto_discard c rest next
      else if species s = species c then auto_discard c rest (insert (global_id s) next)
      else if item_clash c s then auto_discard c rest (insert (global_id s) next)
      else auto_discard c rest next)"

text \<open>
  \<^verbatim>\<open>
  function confirmSet(set) {
    if (!set) return;
    if (confirmed.length >= 4) return;
    if (discarded.has(set.global_id)) return;
    setConfirmed((prev) => [...prev, set.global_id]);
    setDiscarded((prev) => { ... });
  }
  \<close>
  The argument is \<open>None\<close> for a null set. A handler runs on the state of the last render,
  so the \<^verbatim>\<open>confirmed\<close> and \<^verbatim>\<open>discarded\<close> of the guards are the ones the updaters receive
  as \<^verbatim>\<open>prev\<close>.
\<close>

definition confirmSet :: "pset option \<Rightarrow> 'a app_state_scheme \<Rightarrow> 'a app_state_scheme" where
  "confirmSet so st =
     (case so of
        None \<Rightarrow> st
      | Some s \<Rightarrow>
          if length (confirmed st) \<ge> 4 then st
          else if global_id s \<in> discarded st then st
          else st\<lparr>confirmed := confirmed st @ [global_id s],
                  discarded := auto_discard s (poolSets st) (discarded st)\<rparr>)"

text \<open>\<^verbatim>\<open>setConfirmed((prev) => prev.filter((x) => x !== globalId));\<close>\<close>

definition removeConfirmed :: "int \<Rightarrow> 'a app_state_scheme \<Rightarrow> 'a app_state_scheme" where
  "removeConfirmed globalId st = st\<lparr>confirmed := filter (\<lambda>x. x \<noteq> globalId) (confirmed st)\<rparr>"

text \<open>\<^verbatim>\<open>resetAll\<close> of the last revision (the suggestion list of the search box is not kept).\<close>

definition resetAll :: "'a app_state_scheme \<Rightarrow> 'a app_state_scheme" where
  "resetAll st =
     st\<lparr>trainer := None, confirmed := [], discarded := {},
        showDiscarded := False, showStatsInPool := False, q := []\<rparr>"

subsection \<open>Handlers of the earlier revisions\<close>

text \<open>
  The earlier revisions keep the list \<^verbatim>\<open>seen\<close> and the selected set; \<^verbatim>\<open>seenSet\<close> is
  \<^verbatim>\<open>new Set(seen)\<close>.
  \<^verbatim>\<open>
  function markSeen(globalId) {
    if (seenSet.has(globalId)) return;
    if (seen.length >= 4) return;
    setSeen((prev) => [...prev, globalId]);
  }
  function unmarkSeen(globalId) {
    setSeen((prev) => prev.filter((x) => x !== globalId));
  }
  \<close>
\<close>

record seen_state =
  seen_trainer :: "trainer option"
  selectedSet :: "pset option"
  seen :: "int list"
  seen_q :: string

definition markSeen :: "int \<Rightarrow> 'a seen_state_scheme \<Rightarrow> 'a seen_state_scheme" where
  "markSeen globalId st =
     (if globalId \<in> set (seen st) then st
      else if length (seen st) \<ge> 4 then st
      else st\<lparr>seen := seen st @ [globalId]\<rparr>)"

definition unmarkSeen :: "int \<Rightarrow> 'a seen_state_scheme \<Rightarrow> 'a seen_state_scheme" where
  "unmarkSeen globalId st = st\<lparr>seen := filter (\<lambda>x. x \<noteq> globalId) (seen st)\<rparr>"

definition resetAll_seen :: "'a seen_state_scheme \<Rightarrow> 'a seen_state_scheme" where
  "resetAll_seen st = st\<lparr>seen_trainer := None, selectedSet := None, seen := [], seen_q := []\<rparr>"

subsection \<open>Notions the properties are stated with\<close>

text \<open>
  The lookup table \<^verbatim>\<open>setById\<close>: \<^verbatim>\<open>for (const s of poolSets) m.set(s.global_id, s)\<close>,
  a later set replacing an earlier one with the same id.
\<close>

definition setById :: "'a app_state_scheme \<Rightarrow> int \<rightharpoonup> pset" where
  "setById st = map_of (rev (map (\<lambda>s. (global_id s, s)) (poolSets st)))"

text \<open>The ids the auto-discard loop adds for a confirmed set \<open>c\<close>.\<close>

definition excluded_by :: "pset \<Rightarrow> pset list \<Rightarrow> int set" where
  "excluded_by c pool =
     set (map global_id
       (filter (\<lambda>s. global_id s \<noteq> global_id c \<and> (species s = species c \<or> item_clash c s)) pool))"

text \<open>The invariant of the seen/confirmed list: at most four ids, no id twice.\<close>

definition team_inv :: "int list \<Rightarrow> bool" where
  "team_inv xs = (length xs \<le> 4 \<and> distinct xs)"

text \<open>The order of \<^verbatim>\<open>poolSortedDex\<close>: dex number first (999999 without one), then id.\<close>

definition dex_le :: "pset \<Rightarrow> pset \<Rightarrow> bool" where
  "dex_le a b =
     (dex_or_last a < dex_or_last b
      \<or> (dex_or_last a = dex_or_last b \<and> global_id a \<le> global_id b))"

subsection \<open>The call sites of the last revision\<close>

text \<open>
  The handlers are local functions of the component: they run when the view calls them,
  between two renders. The seen slots show
  \<^verbatim>\<open>
  const slots = [null, null, null, null];
  for (let i = 0; i < Math.min(4, confirmed.length); i++)
    slots[i] = setById.get(confirmed[i]) ?? null;
  \<close>
\<close>

definition confirmedSets :: "'a app_state_scheme \<Rightarrow> pset option list" where
  "confirmedSets st =
     map (setById st) (take 4 (confirmed st)) @ replicate (4 - min 4 (length (confirmed st))) None"

text \<open>
  The events of the view, one for each place that calls a handler or a setter:
  \<^item> the check mark of a pool tile, \<^verbatim>\<open>onClick={() => onConfirm(set)}\<close>, with
    \<^verbatim>\<open>disabled={!canConfirm || isDiscarded}\<close>, on the tiles of
    \<^verbatim>\<open>visiblePool.map((s) => <SetTile set={s} onConfirm={confirmSet} ... />)\<close>;
  \<^item> the cross of a pool tile, \<^verbatim>\<open>onClick={() => onDiscardToggle(set.global_id)}\<close>;
  \<^item> the remove button of a filled seen slot, \<^verbatim>\<open>onClick={() => onRemove(set.global_id)}\<close>;
  \<^item> the reset button, \<^verbatim>\<open>onClick={resetAll}\<close>;
  \<^item> a trainer picked in the dropdown: \<^verbatim>\<open>loadTrainer\<close> clears the cells at once and
    sets the trainer when the reply has arrived, which are two events here;
  \<^item> the two check boxes and the search box.
  The pool, the slots and the check boxes are rendered only while a trainer is loaded.
\<close>

datatype ui_event =
    ClickConfirm pset
  | ClickDiscard pset
  | ClickRemove pset
  | ClickReset
  | PickTrainer
  | TrainerLoaded trainer
  | CheckShowDiscarded bool
  | CheckShowStats bool
  | TypeQuery string

fun offered :: "ui_event \<Rightarrow> 'a app_state_scheme \<Rightarrow> bool" where
  "offered (ClickConfirm s) st =
     (s \<in> set (visiblePool st) \<and> length (confirmed st) < 4 \<and> global_id s \<notin> discarded st)"
| "offered (ClickDiscard s) st = (s \<in> set (visiblePool st))"
| "offered (ClickRemove s) st = (Some s \<in> set (confirmedSets st))"
| "offered (CheckShowDiscarded b) st = (trainer st \<noteq> None)"
| "offered (CheckShowStats b) st = (trainer st \<noteq> None)"
| "offered e st = True"

fun handle :: "ui_event \<Rightarrow> 'a app_state_scheme \<Rightarrow> 'a app_state_scheme" where
  "handle (ClickConfirm s) st = confirmSet (Some s) st"
| "handle (ClickDiscard s) st = toggleDiscard (global_id s) st"
| "handle (ClickRemove s) st = removeConfirmed (global_id s) st"
| "handle ClickReset st = resetAll st"
| "handle PickTrainer st =
     st\<lparr>trainer := None, confirmed := [], discarded := {},
        showDiscarded := False, showStatsInPool := False\<rparr>"
| "handle (TrainerLoaded t) st = st\<lparr>trainer := Some t\<rparr>"
| "handle (CheckShowDiscarded b) st = st\<lparr>showDiscarded := b\<rparr>"
| "handle (CheckShowStats b) st = st\<lparr>showStatsInPool := b\<rparr>"
| "handle (TypeQuery s) st = st\<lparr>q := s\<rparr>"

text \<open>An event the view does not offer in a state cannot happen there.\<close>

definition ui_step :: "ui_event \<Rightarrow> 'a app_state_scheme \<Rightarrow> 'a app_state_scheme" where
  "ui_step e st = (if offered e st then handle e st else st)"

definition ui_run :: "ui_event list \<Rightarrow> 'a app_state_scheme \<Rightarrow> 'a app_state_scheme" where
  "ui_run es st = fold ui_step es st"

text \<open>The initial values of the \<^verbatim>\<open>useState\<close> cells.\<close>

definition init_state :: app_state where
  "init_state = \<lparr>trainer = None, confirmed = [], discarded = {},
                 showDiscarded = False, showStatsInPool = False, q = []\<rparr>"

subsection \<open>A small pool\<close>

definition A1 :: pset where
  "A1 = \<lparr>global_id = 1, species = ''Pikachu'', item = Some ''Light Ball'', dex_number = Some 25\<rparr>"

definition A2 :: pset where
  "A2 = \<lparr>global_id = 2, species = ''Pikachu'', item = Some ''Focus Sash'', dex_number = Some 25\<rparr>"

definition B1 :: pset where
  "B1 = \<lparr>global_id = 3, species = ''Eevee'', item = Some '' Light Ball '', dex_number = Some 133\<rparr>"

definition C1 :: pset where
  "C1 = \<lparr>global_id = 4, species = ''Snorlax'', item = Some ''Leftovers'', dex_number = Some 143\<rparr>"

definition D1 :: pset where
  "D1 = \<lparr>global_id = 5, species = ''Togepi'', item = None, dex_number = None\<rparr>"

definition E1 :: pset where
  "E1 = \<lparr>global_id = 6, species = ''Ditto'', item = Some ''  '', dex_number = Some 132\<rparr>"

definition pool0 :: "pset list" where
  "pool0 = [C1, D1, A2, B1, E1, A1]"

definition st0 :: app_state where
  "st0 = \<lparr>trainer = Some \<lparr>sets = pool0\<rparr>, confirmed = [], discarded = {},
          showDiscarded = False, showStatsInPool = False, q = ''lass''\<rparr>"

definition seen0 :: seen_state where
  "seen0 = \<lparr>seen_trainer = Some \<lparr>sets = pool0\<rparr>, selectedSet = Some A1, seen = [1, 4],
            seen_q = ''lass''\<rparr>"

section \<open>Properties\<close>

subsection \<open>The auto-discard loop\<close>

lemma excluded_by_Cons:
  "excluded_by c (s # rest) =
     (if global_id s \<noteq> global_id c \<and> (species s = species c \<or> item_clash c s)
      then insert (global_id s) (excluded_by c rest) else excluded_by c rest)"
  by (simp add: excluded_by_def)

lemma auto_discard_eq: "auto_discard c pool next = next \<union> excluded_by c pool"
proof (induction pool arbitrary: "next")
  case Nil
  show ?case by (simp add: excluded_by_def)
next
  case (Cons s rest)
  show ?case
    by (simp add: Cons.IH excluded_by_Cons)
qed

lemma excluded_by_iff:
  "g \<in> excluded_by c pool \<longleftrightarrow>
     (\<exists>s \<in> set pool. global_id s = g \<and> global_id s \<noteq> global_id c
        \<and> (species s = species c \<or> item_clash c s))"
  by (auto simp: excluded_by_def)

lemma ids_where:
  "{global_id t | t. t \<in> set pool \<and> P t} = set (map global_id (filter P pool))"
  by auto

lemma confirmSet_guarded:
  "length (confirmed st) < 4 \<Longrightarrow> global_id s \<notin> discarded st \<Longrightarrow>
     confirmSet (Some s) st =
       st\<lparr>confirmed := confirmed st @ [global_id s],
          discarded := discarded st \<union> excluded_by s (poolSets st)\<rparr>"
  by (simp add: confirmSet_def auto_discard_eq)

lemma confirmSet_noop:
  "global_id s \<in> discarded st \<or> length (confirmed st) \<ge> 4 \<Longrightarrow> confirmSet (Some s) st = st"
  by (auto simp: confirmSet_def)

lemma poolSets_confirmSet [simp]: "poolSets (confirmSet so st) = poolSets st"
  by (simp add: confirmSet_def poolSets_def split: option.splits)

lemma showDiscarded_confirmSet [simp]: "showDiscarded (confirmSet so st) = showDiscarded st"
  by (simp add: confirmSet_def split: option.splits)

lemma confirmed_confirmSet_grows: "set (confirmed st) \<subseteq> set (confirmed (confirmSet so st))"
  by (auto simp: confirmSet_def split: option.splits)

lemma discarded_confirmSet_grows: "discarded st \<subseteq> discarded (confirmSet so st)"
  by (auto simp: confirmSet_def auto_discard_eq split: option.splits)

lemma poolSortedDex_confirmSet [simp]: "poolSortedDex (confirmSet so st) = poolSortedDex st"
  by (simp add: poolSortedDex_def)

lemma visible_confirmSet: "visible (confirmSet so st) s \<Longrightarrow> visible st s"
  using confirmed_confirmSet_grows [of st so] discarded_confirmSet_grows [of st so]
  by (auto simp: visible_def split: if_splits)

lemma subseq_filter_weaker:
  assumes "\<And>x. P x \<Longrightarrow> Q x"
  shows "subseq (filter P xs) (filter Q xs)"
proof -
  have "filter P xs = filter P (filter Q xs)"
    using assms by (induction xs) auto
  then show ?thesis
    by (metis subseq_filter_left)
qed

subsection \<open>The comparator sort\<close>

lemma cmp_dex_le: "cmp_dex a b \<le> 0 \<longleftrightarrow> dex_le a b"
  by (auto simp: cmp_dex_def dex_le_def Let_def)

lemma dex_le_total: "\<not> dex_le a b \<Longrightarrow> dex_le b a"
  by (auto simp: dex_le_def)

lemma dex_le_trans: "dex_le a b \<Longrightarrow> dex_le b c \<Longrightarrow> dex_le a c"
  by (auto simp: dex_le_def)

lemma mset_insert_by: "mset (insert_by c x xs) = add_mset x (mset xs)"
  by (induction xs) auto

lemma mset_sort_by: "mset (sort_by c xs) = mset xs"
  by (induction xs) (auto simp: mset_insert_by)

lemma set_insert_by: "set (insert_by c x xs) = insert x (set xs)"
  by (induction xs) auto

lemma sorted_insert_by:
  "sorted_wrt dex_le xs \<Longrightarrow> sorted_wrt dex_le (insert_by cmp_dex x xs)"
proof (induction xs)
  case Nil
  show ?case by simp
next
  case (Cons y ys)
  show ?case
  proof (cases "cmp_dex x y \<le> 0")
    case True
    then have xy: "dex_le x y" by (simp add: cmp_dex_le)
    have "dex_le x z" if "z \<in> set ys" for z
      using Cons.prems that xy by (auto intro: dex_le_trans)
    with True xy Cons.prems show ?thesis by simp
  next
    case False
    then have "dex_le y x" by (simp add: cmp_dex_le dex_le_total)
    with False Cons show ?thesis by (auto simp: set_insert_by)
  qed
qed

lemma sorted_sort_by: "sorted_wrt dex_le (sort_by cmp_dex xs)"
  by (induction xs) (auto intro: sorted_insert_by)

text \<open>
  The order leaves no choice when the ids of the pool are distinct: a list with the sets of
  the pool that is in the order of \<open>dex_le\<close> is the list \<open>sort_by\<close> computes, whatever
  sorting algorithm produced it.
\<close>

lemma sorted_wrt_unique:
  assumes "sorted_wrt R xs" and "sorted_wrt R ys" and "mset xs = mset ys"
    and "\<And>a b. a \<in> set xs \<Longrightarrow> b \<in> set xs \<Longrightarrow> R a b \<Longrightarrow> R b a \<Longrightarrow> a = b"
  shows "xs = ys"
  using assms
proof (induction xs arbitrary: ys)
  case Nil
  then show ?case by simp
next
  case (Cons x xs)
  from Cons.prems(3) obtain y ys' where ys: "ys = y # ys'"
    by (cases ys) auto
  have sets: "set (x # xs) = set (y # ys')"
    using Cons.prems(3) ys by (metis mset_eq_setD)
  have "x = y"
  proof (rule ccontr)
    assume ne: "x \<noteq> y"
    with sets have mem: "x \<in> set ys'" "y \<in> set xs" by auto
    with Cons.prems(1,2) ys have "R y x" "R x y" by auto
    with Cons.prems(4) [of x y] mem(2) have "x = y" by simp
    with ne show False by simp
  qed
  with Cons.prems ys have "xs = ys'"
    by (intro Cons.IH) auto
  with \<open>x = y\<close> ys show ?case by simp
qed

lemma sort_by_unique:
  assumes "distinct (map global_id pool)" and "mset ys = mset pool" and "sorted_wrt dex_le ys"
  shows "ys = sort_by cmp_dex pool"
proof (rule sorted_wrt_unique [where R = dex_le])
  show "sorted_wrt dex_le ys" by fact
  show "sorted_wrt dex_le (sort_by cmp_dex pool)" by (rule sorted_sort_by)
  show "mset ys = mset (sort_by cmp_dex pool)" by (simp add: assms(2) mset_sort_by)
  fix a b
  assume "a \<in> set ys" "b \<in> set ys" "dex_le a b" "dex_le b a"
  moreover have "set ys = set pool" using assms(2) by (rule mset_eq_setD)
  ultimately have "a \<in> set pool" "b \<in> set pool" "global_id a = global_id b"
    by (auto simp: dex_le_def)
  with assms(1) show "a = b"
    by (meson distinct_map inj_onD)
qed

subsection \<open>Evaluating the small pool\<close>

lemma trimmed_items:
  "trimmed_item A1 = ''Light Ball''" "trimmed_item A2 = ''Focus Sash''"
  "trimmed_item B1 = ''Light Ball''" "trimmed_item C1 = ''Leftovers''"
  "trimmed_item D1 = []" "trimmed_item E1 = []"
  by (simp_all add: trimmed_item_def trim_def is_ws_def A1_def A2_def B1_def C1_def D1_def E1_def)

lemma pool_fields:
  "global_id A1 = 1" "global_id A2 = 2" "global_id B1 = 3"
  "global_id C1 = 4" "global_id D1 = 5" "global_id E1 = 6"
  "species A1 = ''Pikachu''" "species A2 = ''Pikachu''" "species B1 = ''Eevee''"
  "species C1 = ''Snorlax''" "species D1 = ''Togepi''" "species E1 = ''Ditto''"
  "dex_number A1 = Some 25" "dex_number A2 = Some 25" "dex_number B1 = Some 133"
  "dex_number C1 = Some 143" "dex_number D1 = None" "dex_number E1 = Some 132"
  by (simp_all add: A1_def A2_def B1_def C1_def D1_def E1_def)

lemma pool_neq:
  "E1 \<noteq> A1" "E1 \<noteq> A2" "C1 \<noteq> A1" "C1 \<noteq> A2" "C1 \<noteq> E1" "C1 \<noteq> B1" "D1 \<noteq> C1"
  "B1 \<noteq> A1" "B1 \<noteq> A2" "B1 \<noteq> E1" "D1 \<noteq> A1"
  by (simp_all add: A1_def A2_def B1_def C1_def D1_def E1_def)

lemma poolSets_st0: "poolSets st0 = [C1, D1, A2, B1, E1, A1]"
  by (simp add: poolSets_def st0_def pool0_def)

lemma st0_fields: "confirmed st0 = []" "discarded st0 = {}" "showDiscarded st0 = False"
  by (simp_all add: st0_def)

lemma excluded_by_A1: "excluded_by A1 (poolSets st0) = {2, 3}"
  by (auto simp: poolSets_st0 excluded_by_def item_clash_def trimmed_items pool_fields)

lemma confirm_A1:
  "confirmSet (Some A1) st0 = st0\<lparr>confirmed := [1], discarded := {2, 3}\<rparr>"
  using confirmSet_guarded [of st0 A1]
  by (simp add: st0_fields excluded_by_A1 pool_fields)

lemma cmp_dex_small:
  "cmp_dex A1 A2 \<le> 0" "cmp_dex A1 E1 \<le> 0" "cmp_dex A1 B1 \<le> 0" "cmp_dex A1 C1 \<le> 0"
  "\<not> cmp_dex E1 A1 \<le> 0" "\<not> cmp_dex E1 A2 \<le> 0" "cmp_dex E1 B1 \<le> 0"
  "\<not> cmp_dex B1 A1 \<le> 0" "\<not> cmp_dex B1 A2 \<le> 0" "\<not> cmp_dex B1 E1 \<le> 0" "cmp_dex B1 C1 \<le> 0"
  "\<not> cmp_dex A2 A1 \<le> 0" "cmp_dex A2 E1 \<le> 0" "cmp_dex A2 B1 \<le> 0"
  "\<not> cmp_dex D1 A1 \<le> 0" "\<not> cmp_dex D1 A2 \<le> 0" "\<not> cmp_dex D1 E1 \<le> 0"
  "\<not> cmp_dex D1 B1 \<le> 0" "\<not> cmp_dex D1 C1 \<le> 0"
  "\<not> cmp_dex C1 A1 \<le> 0" "\<not> cmp_dex C1 A2 \<le> 0" "\<not> cmp_dex C1 E1 \<le> 0"
  "\<not> cmp_dex C1 B1 \<le> 0" "cmp_dex C1 D1 \<le> 0"
  by (simp_all add: cmp_dex_def dex_or_last_def pool_fields)

lemma poolSortedDex_st0: "poolSortedDex st0 = [A1, A2, E1, B1, C1, D1]"
  by (simp add: poolSortedDex_def poolSets_st0 cmp_dex_small)

lemma visiblePool_st0: "visiblePool st0 = [A1, A2, E1, B1, C1, D1]"
  by (simp add: visiblePool_def poolSortedDex_st0 visible_def st0_fields)

lemma poolSortedDex_upd [simp]:
  "poolSortedDex (st\<lparr>confirmed := c\<rparr>) = poolSortedDex st"
  "poolSortedDex (st\<lparr>discarded := d\<rparr>) = poolSortedDex st"
  "poolSortedDex (st\<lparr>showDiscarded := b\<rparr>) = poolSortedDex st"
  by (simp_all add: poolSortedDex_def poolSets_def)

lemma visiblePool_after_A1: "visiblePool (confirmSet (Some A1) st0) = [E1, C1, D1]"
  by (simp add: confirm_A1 visiblePool_def poolSortedDex_st0 visible_def st0_fields pool_fields)

subsection \<open>Claims about \<^verbatim>\<open>confirmSet\<close>\<close>

text \<open>
  C1. For a loaded pool and a set \<open>s\<close> confirmed while fewer than four ids are confirmed and
  \<open>s\<close> is not discarded, \<^verbatim>\<open>confirmSet(s)\<close> appends the id of \<open>s\<close> to the confirmed list,
  and the new discarded set is the old one, plus the id of every other set of the pool with
  the species of \<open>s\<close>, plus the id of every other set whose trimmed item is non-empty and
  equal to the trimmed item of \<open>s\<close>: nothing else is added and nothing is removed.
\<close>

theorem confirmSet_appends_and_discards:
  assumes "length (confirmed st) < 4" and "global_id s \<notin> discarded st"
  shows "confirmed (confirmSet (Some s) st) = confirmed st @ [global_id s]
       \<and> discarded (confirmSet (Some s) st) =
           discarded st
           \<union> {global_id t | t. t \<in> set (poolSets st) \<and> global_id t \<noteq> global_id s
                 \<and> species t = species s}
           \<union> {global_id t | t. t \<in> set (poolSets st) \<and> global_id t \<noteq> global_id s
                 \<and> trimmed_item t \<noteq> [] \<and> trimmed_item s \<noteq> []
                 \<and> trimmed_item t = trimmed_item s}"
proof -
  have "excluded_by s (poolSets st) =
      {global_id t | t. t \<in> set (poolSets st) \<and> global_id t \<noteq> global_id s
         \<and> species t = species s}
      \<union> {global_id t | t. t \<in> set (poolSets st) \<and> global_id t \<noteq> global_id s
         \<and> trimmed_item t \<noteq> [] \<and> trimmed_item s \<noteq> []
         \<and> trimmed_item t = trimmed_item s}"
    by (auto simp: excluded_by_def item_clash_def)
  then show ?thesis
    using assms by (simp add: confirmSet_guarded Un_assoc)
qed

theorem confirmSet_appends_and_discards_witness:
  "length (confirmed st0) < 4 \<and> global_id A1 \<notin> discarded st0
   \<and> confirmed (confirmSet (Some A1) st0) = [1]
   \<and> discarded (confirmSet (Some A1) st0) = {2, 3}
   \<and> {global_id t | t. t \<in> set (poolSets st0) \<and> global_id t \<noteq> global_id A1
         \<and> species t = species A1} = {2}
   \<and> {global_id t | t. t \<in> set (poolSets st0) \<and> global_id t \<noteq> global_id A1
         \<and> trimmed_item t \<noteq> [] \<and> trimmed_item A1 \<noteq> []
         \<and> trimmed_item t = trimmed_item A1} = {3}"
proof -
  have g: "length (confirmed st0) < 4" "global_id A1 \<notin> discarded st0"
    by (simp_all add: st0_fields)
  have sp: "{global_id t | t. t \<in> set (poolSets st0) \<and> global_id t \<noteq> global_id A1
         \<and> species t = species A1} = {2}"
    unfolding ids_where by (simp add: poolSets_st0 pool_fields)
  have it: "{global_id t | t. t \<in> set (poolSets st0) \<and> global_id t \<noteq> global_id A1
         \<and> trimmed_item t \<noteq> [] \<and> trimmed_item A1 \<noteq> []
         \<and> trimmed_item t = trimmed_item A1} = {3}"
    unfolding ids_where by (simp add: poolSets_st0 pool_fields trimmed_items)
  from confirmSet_appends_and_discards [OF g] sp it g show ?thesis
    by (simp add: st0_fields pool_fields insert_commute)
qed

text \<open>
  C8. \<^verbatim>\<open>confirmSet\<close> on a set that is in the discarded set, or while the confirmed list
  already holds four ids, changes nothing: the whole state, and so the confirmed list and
  the discarded set, is returned as it was. The handler has no failing branch.
\<close>

theorem confirmSet_guard_noop:
  assumes "global_id s \<in> discarded st \<or> length (confirmed st) \<ge> 4"
  shows "confirmSet (Some s) st = st
       \<and> confirmed (confirmSet (Some s) st) = confirmed st
       \<and> discarded (confirmSet (Some s) st) = discarded st"
  using assms by (auto simp: confirmSet_def)

theorem confirmSet_guard_noop_witness:
  "global_id A2 \<in> discarded (st0\<lparr>confirmed := [1], discarded := {2, 3}\<rparr>)
   \<and> confirmSet (Some A2) (st0\<lparr>confirmed := [1], discarded := {2, 3}\<rparr>)
       = st0\<lparr>confirmed := [1], discarded := {2, 3}\<rparr>
   \<and> length (confirmed (st0\<lparr>confirmed := [1, 4, 5, 6]\<rparr>)) \<ge> 4
   \<and> confirmSet (Some A2) (st0\<lparr>confirmed := [1, 4, 5, 6]\<rparr>) = st0\<lparr>confirmed := [1, 4, 5, 6]\<rparr>"
proof -
  have a: "global_id A2 \<in> discarded (st0\<lparr>confirmed := [1], discarded := {2, 3}\<rparr>)"
    by (simp add: pool_fields)
  have b: "length (confirmed (st0\<lparr>confirmed := [1, 4, 5, 6]\<rparr>)) \<ge> 4"
    by simp
  from confirmSet_guard_noop [of A2 "st0\<lparr>confirmed := [1], discarded := {2, 3}\<rparr>", OF disjI1, OF a]
       confirmSet_guard_noop [of A2 "st0\<lparr>confirmed := [1, 4, 5, 6]\<rparr>", OF disjI2, OF b] a b
  show ?thesis by simp
qed

subsection \<open>Claims about \<^verbatim>\<open>toggleDiscard\<close>\<close>

text \<open>
  C9. \<^verbatim>\<open>toggleDiscard(g)\<close> changes the membership of \<open>g\<close> in the discarded set and of no
  other id, and applied twice in succession it gives back the discarded set it started from
  (and the whole state).
\<close>

theorem toggleDiscard_point_involution:
  "(\<forall>h. h \<noteq> g \<longrightarrow> (h \<in> discarded (toggleDiscard g st) \<longleftrightarrow> h \<in> discarded st))
   \<and> (g \<in> discarded (toggleDiscard g st) \<longleftrightarrow> g \<notin> discarded st)
   \<and> discarded (toggleDiscard g (toggleDiscard g st)) = discarded st
   \<and> toggleDiscard g (toggleDiscard g st) = st"
  by (auto simp: toggleDiscard_def insert_absorb)

theorem toggleDiscard_point_involution_witness:
  "discarded (toggleDiscard 2 (st0\<lparr>discarded := {2, 3}\<rparr>)) = {3}
   \<and> discarded (toggleDiscard 2 (toggleDiscard 2 (st0\<lparr>discarded := {2, 3}\<rparr>))) = {2, 3}
   \<and> (3 \<in> discarded (toggleDiscard 2 (st0\<lparr>discarded := {2, 3}\<rparr>)))
   \<and> (2 \<notin> discarded (toggleDiscard 2 (st0\<lparr>discarded := {2, 3}\<rparr>)))"
  using toggleDiscard_point_involution [of 2 "st0\<lparr>discarded := {2, 3}\<rparr>"]
  by (simp add: toggleDiscard_def)

subsection \<open>Monotone shrinking\<close>

text \<open>
  C2. Confirming never enlarges what remains: in every state, and for every argument, the
  discarded set after \<^verbatim>\<open>confirmSet\<close> contains the discarded set before, and the visible
  pool after is drawn from the visible pool before (as a set of tiles, and as a list in the
  same order). This holds whatever \<^verbatim>\<open>showDiscarded\<close> is, which \<^verbatim>\<open>confirmSet\<close> leaves as
  it was; the last conjunct is the case with \<^verbatim>\<open>showDiscarded\<close> off.
\<close>

theorem confirmSet_monotone_shrink:
  "discarded st \<subseteq> discarded (confirmSet so st)
   \<and> set (visiblePool (confirmSet so st)) \<subseteq> set (visiblePool st)
   \<and> subseq (visiblePool (confirmSet so st)) (visiblePool st)
   \<and> showDiscarded (confirmSet so st) = showDiscarded st
   \<and> set (visiblePool (confirmSet so (st\<lparr>showDiscarded := False\<rparr>)))
       \<subseteq> set (visiblePool (st\<lparr>showDiscarded := False\<rparr>))"
proof -
  have sub: "subseq (visiblePool (confirmSet so st')) (visiblePool st')"
    for st' :: "'a app_state_scheme"
    unfolding visiblePool_def poolSortedDex_confirmSet
    by (rule subseq_filter_weaker) (rule visible_confirmSet)
  have "set (visiblePool (confirmSet so st')) \<subseteq> set (visiblePool st')"
    for st' :: "'a app_state_scheme"
    using sub [of st'] by (auto dest: list_emb_set)
  then show ?thesis
    using sub [of st] discarded_confirmSet_grows [of st so] by simp
qed

theorem confirmSet_monotone_shrink_witness:
  "discarded st0 \<subseteq> discarded (confirmSet (Some A1) st0)
   \<and> discarded (confirmSet (Some A1) st0) = {2, 3}
   \<and> visiblePool st0 = [A1, A2, E1, B1, C1, D1]
   \<and> visiblePool (confirmSet (Some A1) st0) = [E1, C1, D1]
   \<and> subseq [E1, C1, D1] [A1, A2, E1, B1, C1, D1]"
proof -
  have d: "discarded (confirmSet (Some A1) st0) = {2, 3}"
    by (simp add: confirm_A1)
  have s: "subseq [E1, C1, D1] [A1, A2, E1, B1, C1, D1]"
    by (simp add: pool_neq)
  from confirmSet_monotone_shrink [of st0 "Some A1"] show ?thesis
    by (simp add: d s visiblePool_st0 visiblePool_after_A1)
qed

subsection \<open>Removing a confirmed pick\<close>

text \<open>
  C3. \<^verbatim>\<open>removeConfirmed(g)\<close> takes exactly the id \<open>g\<close> out of the confirmed list, the
  other ids keeping their order, and leaves the discarded set as it was. In particular,
  after a set was confirmed and is removed again, everything its confirmation discarded is
  still discarded: nothing is validated again.
\<close>

theorem removeConfirmed_keeps_discarded:
  "confirmed (removeConfirmed g st) = filter (\<lambda>x. x \<noteq> g) (confirmed st)
   \<and> set (confirmed (removeConfirmed g st)) = set (confirmed st) - {g}
   \<and> subseq (confirmed (removeConfirmed g st)) (confirmed st)
   \<and> discarded (removeConfirmed g st) = discarded st
   \<and> discarded st \<union> discarded (confirmSet so st)
       \<subseteq> discarded (removeConfirmed g (confirmSet so st))"
  by (auto simp: removeConfirmed_def dest: subsetD [OF discarded_confirmSet_grows])

theorem removeConfirmed_keeps_discarded_witness:
  "confirmed (removeConfirmed 1 (st0\<lparr>confirmed := [4, 1, 5]\<rparr>)) = [4, 5]
   \<and> confirmed (removeConfirmed 1 (confirmSet (Some A1) st0)) = []
   \<and> discarded (removeConfirmed 1 (confirmSet (Some A1) st0)) = {2, 3}"
  using removeConfirmed_keeps_discarded [of 1 "st0\<lparr>confirmed := [4, 1, 5]\<rparr>" "Some A1"]
        removeConfirmed_keeps_discarded [of 1 "confirmSet (Some A1) st0" "None"]
  by (simp add: confirm_A1)

subsection \<open>The item clause and empty items\<close>

text \<open>
  C6. An empty item excludes nothing. Confirming a set whose trimmed item is empty adds to
  the discarded set the other variants of its species and nothing else. And whatever the
  item of the confirmed set is, the turn of the loop for a pool set of another species
  whose own trimmed item is empty adds nothing; so, in a pool whose ids are distinct, such
  a set is in the discarded set afterwards only if it was there before.
\<close>

theorem empty_item_no_exclusion:
  "(length (confirmed st) < 4 \<longrightarrow> global_id s \<notin> discarded st \<longrightarrow> trimmed_item s = [] \<longrightarrow>
      discarded (confirmSet (Some s) st) =
        discarded st \<union> {global_id t | t. t \<in> set (poolSets st)
                            \<and> global_id t \<noteq> global_id s \<and> species t = species s})
   \<and> (trimmed_item t = [] \<longrightarrow> \<not> item_clash c t)
   \<and> (trimmed_item t = [] \<longrightarrow> species t \<noteq> species c \<longrightarrow>
        auto_discard c (t # rest) next = auto_discard c rest next)
   \<and> (trimmed_item t = [] \<longrightarrow> species t \<noteq> species c \<longrightarrow> t \<in> set (poolSets st)
        \<longrightarrow> distinct (map global_id (poolSets st)) \<longrightarrow> global_id t \<notin> discarded st
        \<longrightarrow> global_id t \<notin> discarded (confirmSet (Some c) st))"
proof (intro conjI impI)
  assume "length (confirmed st) < 4" "global_id s \<notin> discarded st" "trimmed_item s = []"
  moreover have "trimmed_item s = [] \<Longrightarrow> excluded_by s (poolSets st) =
      {global_id t | t. t \<in> set (poolSets st)
         \<and> global_id t \<noteq> global_id s \<and> species t = species s}"
    by (auto simp: excluded_by_def item_clash_def)
  ultimately show "discarded (confirmSet (Some s) st) =
        discarded st \<union> {global_id t | t. t \<in> set (poolSets st)
                            \<and> global_id t \<noteq> global_id s \<and> species t = species s}"
    by (simp add: confirmSet_guarded)
next
  assume "trimmed_item t = []"
  then show "\<not> item_clash c t" by (simp add: item_clash_def)
next
  assume "trimmed_item t = []" "species t \<noteq> species c"
  then show "auto_discard c (t # rest) next = auto_discard c rest next"
    by (simp add: item_clash_def)
next
  assume t: "trimmed_item t = []" "species t \<noteq> species c" "t \<in> set (poolSets st)"
    and d: "distinct (map global_id (poolSets st))" and n: "global_id t \<notin> discarded st"
  have "global_id t \<notin> excluded_by c (poolSets st)"
  proof
    assume "global_id t \<in> excluded_by c (poolSets st)"
    then obtain u where u: "u \<in> set (poolSets st)" "global_id u = global_id t"
        "species u = species c \<or> item_clash c u"
      by (auto simp: excluded_by_iff)
    from d u(1,2) t(3) have "u = t"
      by (meson distinct_map inj_onD)
    with u(3) t show False by (simp add: item_clash_def)
  qed
  with n show "global_id t \<notin> discarded (confirmSet (Some c) st)"
    by (auto simp: confirmSet_def auto_discard_eq)
qed

theorem empty_item_no_exclusion_witness:
  "length (confirmed st0) < 4 \<and> global_id D1 \<notin> discarded st0 \<and> trimmed_item D1 = []
   \<and> discarded (confirmSet (Some D1) st0) = {}
   \<and> trimmed_item E1 = [] \<and> species E1 \<noteq> species D1 \<and> species E1 \<noteq> species A1
   \<and> E1 \<in> set (poolSets st0) \<and> distinct (map global_id (poolSets st0))
   \<and> global_id E1 \<notin> discarded (confirmSet (Some D1) st0)
   \<and> global_id E1 \<notin> discarded (confirmSet (Some A1) st0)
   \<and> auto_discard A1 [E1, B1] {} = auto_discard A1 [B1] {}"
proof -
  have h: "length (confirmed st0) < 4" "global_id D1 \<notin> discarded st0" "trimmed_item D1 = []"
    "trimmed_item E1 = []" "species E1 \<noteq> species D1" "species E1 \<noteq> species A1"
    "E1 \<in> set (poolSets st0)" "distinct (map global_id (poolSets st0))"
    "global_id E1 \<notin> discarded st0"
    by (simp_all add: st0_fields trimmed_items pool_fields poolSets_st0)
  have e: "{global_id t | t. t \<in> set (poolSets st0)
             \<and> global_id t \<noteq> global_id D1 \<and> species t = species D1} = {}"
    unfolding ids_where by (simp add: poolSets_st0 pool_fields)
  from empty_item_no_exclusion [of st0 D1 E1 D1 "[B1]" "{}"]
       empty_item_no_exclusion [of st0 D1 E1 A1 "[B1]" "{}"] h e
  show ?thesis by (simp add: st0_fields)
qed

subsection \<open>Determinism\<close>

text \<open>
  C7. The handlers depend on nothing but their inputs: for two states with the same pool
  sets, the same confirmed list and the same discarded set (whatever their other cells,
  and whatever further cells the component may carry), and the same argument,
  \<^verbatim>\<open>confirmSet\<close>, \<^verbatim>\<open>toggleDiscard\<close> and \<^verbatim>\<open>removeConfirmed\<close> each give the same
  confirmed list and the same discarded set.
\<close>

theorem handlers_deterministic:
  fixes st1 :: "'a app_state_scheme" and st2 :: "'b app_state_scheme"
  assumes "poolSets st1 = poolSets st2"
    and "confirmed st1 = confirmed st2"
    and "discarded st1 = discarded st2"
  shows "confirmed (confirmSet so st1) = confirmed (confirmSet so st2)
       \<and> discarded (confirmSet so st1) = discarded (confirmSet so st2)
       \<and> confirmed (toggleDiscard g st1) = confirmed (toggleDiscard g st2)
       \<and> discarded (toggleDiscard g st1) = discarded (toggleDiscard g st2)
       \<and> confirmed (removeConfirmed g st1) = confirmed (removeConfirmed g st2)
       \<and> discarded (removeConfirmed g st1) = discarded (removeConfirmed g st2)"
  using assms
  by (simp add: confirmSet_def toggleDiscard_def removeConfirmed_def split: option.splits)

theorem handlers_deterministic_witness:
  "poolSets st0 = poolSets (st0\<lparr>showDiscarded := True, showStatsInPool := True, q := ''x''\<rparr>)
   \<and> confirmed (confirmSet (Some A1) (st0\<lparr>showDiscarded := True, showStatsInPool := True, q := ''x''\<rparr>))
       = [1]
   \<and> discarded (confirmSet (Some A1) (st0\<lparr>showDiscarded := True, showStatsInPool := True, q := ''x''\<rparr>))
       = {2, 3}
   \<and> discarded (toggleDiscard 4 (st0\<lparr>showDiscarded := True, showStatsInPool := True, q := ''x''\<rparr>))
       = discarded (toggleDiscard 4 st0)
   \<and> confirmed (removeConfirmed 4 (st0\<lparr>showDiscarded := True, showStatsInPool := True, q := ''x''\<rparr>))
       = confirmed (removeConfirmed 4 st0)"
proof -
  have h: "poolSets st0 = poolSets (st0\<lparr>showDiscarded := True, showStatsInPool := True, q := ''x''\<rparr>)"
    "confirmed st0 = confirmed (st0\<lparr>showDiscarded := True, showStatsInPool := True, q := ''x''\<rparr>)"
    "discarded st0 = discarded (st0\<lparr>showDiscarded := True, showStatsInPool := True, q := ''x''\<rparr>)"
    by (simp_all add: poolSets_def)
  from handlers_deterministic [OF h, of "Some A1" 4] h(1) show ?thesis
    by (simp add: confirm_A1)
qed

subsection \<open>The pool in dex order\<close>

text \<open>
  C10. For every pool, \<^verbatim>\<open>poolSortedDex\<close> holds the sets of the pool, each as often as the
  pool does, in the order of \<open>dex_le\<close>: by dex number ascending, a set without a numeric dex
  number counting as 999999, and by id ascending among equal dex numbers. Where the dex
  numbers of the pool are below 999999, this puts the sets without a dex number last.
\<close>

theorem poolSortedDex_sorted_permutation:
  "mset (poolSortedDex st) = mset (poolSets st)
   \<and> length (poolSortedDex st) = length (poolSets st)
   \<and> sorted_wrt dex_le (poolSortedDex st)
   \<and> ((\<forall>s \<in> set (poolSets st). \<forall>d. dex_number s = Some d \<longrightarrow> d < 999999) \<longrightarrow>
        sorted_wrt (\<lambda>a b. dex_number a = None \<longrightarrow> dex_number b = None) (poolSortedDex st))"
proof (intro conjI impI)
  show m: "mset (poolSortedDex st) = mset (poolSets st)"
    by (simp add: poolSortedDex_def mset_sort_by)
  then show "length (poolSortedDex st) = length (poolSets st)"
    by (rule mset_eq_length)
  show s: "sorted_wrt dex_le (poolSortedDex st)"
    by (simp add: poolSortedDex_def sorted_sort_by)
  assume b: "\<forall>s \<in> set (poolSets st). \<forall>d. dex_number s = Some d \<longrightarrow> d < 999999"
  have eq: "set (poolSortedDex st) = set (poolSets st)"
    using m by (rule mset_eq_setD)
  have "dex_number a = None \<longrightarrow> dex_number y = None"
    if "a \<in> set (poolSortedDex st)" "y \<in> set (poolSortedDex st)" "dex_le a y" for a y
  proof
    assume "dex_number a = None"
    with that(3) have "999999 \<le> dex_or_last y"
      by (auto simp: dex_le_def dex_or_last_def)
    with b that(2) eq show "dex_number y = None"
      by (cases "dex_number y") (auto simp: dex_or_last_def)
  qed
  with s show "sorted_wrt (\<lambda>a b. dex_number a = None \<longrightarrow> dex_number b = None) (poolSortedDex st)"
    by (rule sorted_wrt_mono_rel [rotated])
qed

theorem poolSortedDex_sorted_permutation_witness:
  "poolSets st0 = [C1, D1, A2, B1, E1, A1]
   \<and> poolSortedDex st0 = [A1, A2, E1, B1, C1, D1]
   \<and> mset [A1, A2, E1, B1, C1, D1] = mset [C1, D1, A2, B1, E1, A1]
   \<and> sorted_wrt dex_le [A1, A2, E1, B1, C1, D1]
   \<and> map dex_number (poolSets st0) = [Some 143, None, Some 25, Some 133, Some 132, Some 25]
   \<and> sorted_wrt (\<lambda>a b. dex_number a = None \<longrightarrow> dex_number b = None) [A1, A2, E1, B1, C1, D1]
   \<and> map dex_number (poolSortedDex st0) = [Some 25, Some 25, Some 132, Some 133, Some 143, None]"
proof -
  have b: "\<forall>s \<in> set (poolSets st0). \<forall>d. dex_number s = Some d \<longrightarrow> d < 999999"
    by (simp add: poolSets_st0 pool_fields)
  have m: "map dex_number (poolSets st0) = [Some 143, None, Some 25, Some 133, Some 132, Some 25]"
    "map dex_number (poolSortedDex st0) = [Some 25, Some 25, Some 132, Some 133, Some 143, None]"
    by (simp_all add: poolSets_st0 poolSortedDex_st0 pool_fields)
  from poolSortedDex_sorted_permutation [of st0] b have
    "mset (poolSortedDex st0) = mset (poolSets st0)
     \<and> sorted_wrt dex_le (poolSortedDex st0)
     \<and> sorted_wrt (\<lambda>a b. dex_number a = None \<longrightarrow> dex_number b = None) (poolSortedDex st0)"
    by blast
  with m show ?thesis
    by (simp only: poolSortedDex_st0 poolSets_st0 simp_thms)
qed

subsection \<open>Two sets of one species\<close>

text \<open>
  C4, as the handlers have it. No handler of the component fails: \<^verbatim>\<open>confirmSet\<close> returns
  a state on every input. Once a set \<open>s\<close> is confirmed, every other set of the pool with
  its species is in the discarded set, and confirming such a set is silently ignored (the
  state stays as it is). When the user takes such a set out of the discarded set again and
  confirms it while there is room, its id is appended like any other.
\<close>

theorem same_species_silently_ignored:
  assumes "length (confirmed st) < 4" and "global_id s \<notin> discarded st"
    and "t \<in> set (poolSets st)" and "species t = species s"
    and "global_id t \<noteq> global_id s"
  shows "global_id t \<in> discarded (confirmSet (Some s) st)
       \<and> confirmSet (Some t) (confirmSet (Some s) st) = confirmSet (Some s) st
       \<and> (length (confirmed st) < 3 \<longrightarrow>
            confirmed (confirmSet (Some t) (toggleDiscard (global_id t) (confirmSet (Some s) st)))
              = confirmed st @ [global_id s, global_id t])"
proof -
  have ex: "global_id t \<in> excluded_by s (poolSets st)"
    using assms(3-5) by (auto simp: excluded_by_iff)
  with assms(1,2) have d: "global_id t \<in> discarded (confirmSet (Some s) st)"
    by (simp add: confirmSet_guarded)
  then have n: "confirmSet (Some t) (confirmSet (Some s) st) = confirmSet (Some s) st"
    by (simp add: confirmSet_noop)
  have "confirmed (confirmSet (Some t) (toggleDiscard (global_id t) (confirmSet (Some s) st)))
      = confirmed st @ [global_id s, global_id t]" if "length (confirmed st) < 3"
    using that assms(1,2) ex
    by (simp add: toggleDiscard_def confirmSet_def auto_discard_eq)
  with d n show ?thesis by simp
qed

theorem same_species_silently_ignored_witness:
  "length (confirmed st0) < 4 \<and> global_id A1 \<notin> discarded st0 \<and> A2 \<in> set (poolSets st0)
   \<and> species A2 = species A1 \<and> global_id A2 \<noteq> global_id A1
   \<and> global_id A2 \<in> discarded (confirmSet (Some A1) st0)
   \<and> confirmSet (Some A2) (confirmSet (Some A1) st0) = confirmSet (Some A1) st0
   \<and> confirmed (confirmSet (Some A1) st0) = [1]"
proof -
  have h: "length (confirmed st0) < 4" "global_id A1 \<notin> discarded st0" "A2 \<in> set (poolSets st0)"
    "species A2 = species A1" "global_id A2 \<noteq> global_id A1"
    by (simp_all add: st0_fields poolSets_st0 pool_fields)
  have c: "confirmed (confirmSet (Some A1) st0) = [1]"
    by (simp add: confirm_A1)
  from same_species_silently_ignored [OF h] h c show ?thesis
    by simp
qed

text \<open>
  The claim as the specification words it fails: with \<open>A1\<close> confirmed and its variant \<open>A2\<close>
  taken out of the discarded set again, confirming \<open>A2\<close> returns a state whose confirmed
  list holds both sets of the species, with no error.
\<close>

theorem same_species_counterexample:
  "confirmed (confirmSet (Some A2) (toggleDiscard 2 (confirmSet (Some A1) st0))) = [1, 2]
   \<and> map_option species (setById st0 1) = Some ''Pikachu''
   \<and> map_option species (setById st0 2) = Some ''Pikachu''"
proof -
  have "toggleDiscard 2 (st0\<lparr>confirmed := [1], discarded := {2, 3}\<rparr>)
      = st0\<lparr>confirmed := [1], discarded := {3}\<rparr>"
    by (simp add: toggleDiscard_def)
  moreover have "confirmed (confirmSet (Some A2) (st0\<lparr>confirmed := [1], discarded := {3}\<rparr>)) = [1, 2]"
    by (simp add: confirmSet_def pool_fields)
  ultimately show ?thesis
    unfolding confirm_A1 by (simp add: setById_def poolSets_st0 pool_fields)
qed

subsection \<open>The invariant of the team list\<close>

lemma team_inv_filter: "team_inv xs \<Longrightarrow> team_inv (filter P xs)"
  by (auto simp: team_inv_def intro: le_trans [OF length_filter_le])

lemma visiblePool_not_confirmed: "s \<in> set (visiblePool st) \<Longrightarrow> global_id s \<notin> set (confirmed st)"
  by (auto simp: visiblePool_def visible_def split: if_splits)

lemma team_inv_confirmSet_new:
  "team_inv (confirmed st) \<Longrightarrow> global_id s \<notin> set (confirmed st) \<Longrightarrow>
     team_inv (confirmed (confirmSet (Some s) st))"
  by (auto simp: team_inv_def confirmSet_def)

lemma team_inv_ui_step: "team_inv (confirmed st) \<Longrightarrow> team_inv (confirmed (ui_step e st))"
proof (cases "offered e st")
  case False
  then show "team_inv (confirmed st) \<Longrightarrow> ?thesis" by (simp add: ui_step_def)
next
  case True
  assume inv: "team_inv (confirmed st)"
  have "team_inv (confirmed (handle e st))"
  proof (cases e)
    case (ClickConfirm s)
    with True have "global_id s \<notin> set (confirmed st)"
      by (simp add: visiblePool_not_confirmed)
    with inv ClickConfirm show ?thesis
      by (simp add: team_inv_confirmSet_new)
  next
    case (ClickRemove s)
    with inv show ?thesis by (simp add: removeConfirmed_def team_inv_filter)
  qed (use inv in \<open>simp_all add: toggleDiscard_def resetAll_def team_inv_def\<close>)
  with True show ?thesis by (simp add: ui_step_def)
qed

lemma team_inv_ui_run: "team_inv (confirmed st) \<Longrightarrow> team_inv (confirmed (ui_run es st))"
  unfolding ui_run_def
  by (induction es arbitrary: st) (simp_all add: team_inv_ui_step)

text \<open>
  C5. Every state-changing operation keeps the seen/confirmed list at four ids at most and
  free of repetitions. \<^verbatim>\<open>markSeen\<close>, \<^verbatim>\<open>unmarkSeen\<close>, \<^verbatim>\<open>removeConfirmed\<close> and both
  \<^verbatim>\<open>resetAll\<close> do so on every argument, and \<^verbatim>\<open>markSeen\<close> of an id already seen, or with
  four ids present, leaves the state as it is. \<^verbatim>\<open>confirmSet\<close> does so where the component
  calls it, on a tile of the visible pool (which holds no confirmed set). So every event
  of the view preserves the invariant, and it holds in every state the view can reach from
  the initial one.
\<close>

theorem team_list_invariant:
  "(team_inv (seen ss) \<longrightarrow>
      team_inv (seen (markSeen g ss)) \<and> team_inv (seen (unmarkSeen g ss))
      \<and> team_inv (seen (resetAll_seen ss)))
   \<and> (g \<in> set (seen ss) \<or> length (seen ss) \<ge> 4 \<longrightarrow> markSeen g ss = ss)
   \<and> (team_inv (confirmed st) \<longrightarrow>
        team_inv (confirmed (removeConfirmed g st)) \<and> team_inv (confirmed (resetAll st)))
   \<and> (team_inv (confirmed st) \<longrightarrow> s \<in> set (visiblePool st) \<longrightarrow>
        team_inv (confirmed (confirmSet (Some s) st)))
   \<and> (team_inv (confirmed st) \<longrightarrow> team_inv (confirmed (ui_step e st)))
   \<and> (team_inv (confirmed st) \<longrightarrow> team_inv (confirmed (ui_run es st)))
   \<and> team_inv (confirmed (ui_run es init_state))"
proof -
  have seen: "team_inv (seen ss) \<longrightarrow>
      team_inv (seen (markSeen g ss)) \<and> team_inv (seen (unmarkSeen g ss))
      \<and> team_inv (seen (resetAll_seen ss))"
    by (auto simp: markSeen_def unmarkSeen_def resetAll_seen_def team_inv_filter)
       (auto simp: team_inv_def)
  have noop: "g \<in> set (seen ss) \<or> length (seen ss) \<ge> 4 \<longrightarrow> markSeen g ss = ss"
    by (auto simp: markSeen_def)
  have rem: "team_inv (confirmed st) \<longrightarrow>
      team_inv (confirmed (removeConfirmed g st)) \<and> team_inv (confirmed (resetAll st))"
    by (simp add: removeConfirmed_def resetAll_def team_inv_filter) (simp add: team_inv_def)
  have conf: "team_inv (confirmed st) \<longrightarrow> s \<in> set (visiblePool st) \<longrightarrow>
      team_inv (confirmed (confirmSet (Some s) st))"
    by (simp add: team_inv_confirmSet_new visiblePool_not_confirmed)
  have "team_inv (confirmed init_state)"
    by (simp add: init_state_def team_inv_def)
  then have init: "team_inv (confirmed (ui_run es init_state))"
    by (rule team_inv_ui_run)
  from seen noop rem conf init show ?thesis
    by (simp add: team_inv_ui_step team_inv_ui_run)
qed

theorem team_list_invariant_witness:
  "team_inv (seen seen0) \<and> seen (markSeen 5 seen0) = [1, 4, 5] \<and> markSeen 4 seen0 = seen0
   \<and> seen (unmarkSeen 1 seen0) = [4]
   \<and> team_inv (confirmed st0) \<and> A1 \<in> set (visiblePool st0)
   \<and> offered (ClickConfirm A1) st0
   \<and> confirmed (ui_step (ClickConfirm A1) st0) = [1]
   \<and> \<not> offered (ClickConfirm A1) (ui_step (ClickConfirm A1) st0)
   \<and> confirmed (ui_run [ClickConfirm A1, ClickConfirm A1, ClickConfirm C1] st0) = [1, 4]
   \<and> team_inv (confirmed (ui_run [ClickConfirm A1, ClickConfirm A1, ClickConfirm C1] st0))
   \<and> team_inv (confirmed (removeConfirmed 1 (ui_step (ClickConfirm A1) st0)))"
proof -
  have h: "team_inv (seen seen0)" "team_inv (confirmed st0)" "A1 \<in> set (visiblePool st0)"
    "4 \<in> set (seen seen0)"
    by (simp_all add: team_inv_def seen0_def st0_fields visiblePool_st0)
  have e: "seen (markSeen 5 seen0) = [1, 4, 5]" "seen (unmarkSeen 1 seen0) = [4]"
    by (simp_all add: markSeen_def unmarkSeen_def seen0_def)
  have o1: "offered (ClickConfirm A1) st0"
    by (simp add: visiblePool_st0 st0_fields pool_fields)
  have s1: "ui_step (ClickConfirm A1) st0 = confirmSet (Some A1) st0"
    by (simp only: ui_step_def o1 if_True handle.simps)
  have o2: "\<not> offered (ClickConfirm A1) (confirmSet (Some A1) st0)"
    by (simp add: visiblePool_after_A1 pool_neq [symmetric])
  have s2: "ui_step (ClickConfirm A1) (confirmSet (Some A1) st0) = confirmSet (Some A1) st0"
    by (simp only: ui_step_def o2 if_False)
  have o3: "offered (ClickConfirm C1) (confirmSet (Some A1) st0)"
    by (simp add: visiblePool_after_A1) (simp add: confirm_A1 pool_fields)
  have s3: "ui_step (ClickConfirm C1) (confirmSet (Some A1) st0)
      = confirmSet (Some C1) (confirmSet (Some A1) st0)"
    by (simp only: ui_step_def o3 if_True handle.simps)
  have "confirmed (confirmSet (Some C1) (st0\<lparr>confirmed := [1], discarded := {2, 3}\<rparr>)) = [1, 4]"
    by (simp add: confirmSet_def pool_fields)
  then have c3: "confirmed (confirmSet (Some C1) (confirmSet (Some A1) st0)) = [1, 4]"
    unfolding confirm_A1 .
  have r: "confirmed (ui_run [ClickConfirm A1, ClickConfirm A1, ClickConfirm C1] st0) = [1, 4]"
    by (simp add: ui_run_def s1 s2 s3 c3)
  have c1: "confirmed (confirmSet (Some A1) st0) = [1]"
    by (simp add: confirm_A1)
  from team_list_invariant [of seen0 4 st0 A1 "ClickConfirm A1"
         "[ClickConfirm A1, ClickConfirm A1, ClickConfirm C1]"]
       team_list_invariant [of seen0 5 st0 A1 "ClickConfirm A1" "[]"]
       team_list_invariant [of seen0 1 "ui_step (ClickConfirm A1) st0" A1 "ClickConfirm A1" "[]"]
       h e o1 o2 r c1
  show ?thesis by (simp add: s1)
qed

end
